theory Spec2Isabelle
  imports Main "HOL-Library.Multiset" "HOL-Library.Sublist"
begin

section \<open>Data model of \<^verbatim>\<open>discord_emoji_ranking/module.py\<close>\<close>

text \<open>
  The enum \<^verbatim>\<open>_SortOrder\<close> with its two static methods. Python identifiers that start
  with an underscore lose it here.
\<close>

datatype SortOrder = ASCENDING | DESCENDING

definition SortOrder_parse :: "string \<Rightarrow> SortOrder" where
  "SortOrder_parse v = (if v = ''ascending'' then ASCENDING else DESCENDING)"

definition SortOrder_reverse :: "SortOrder \<Rightarrow> bool" where
  "SortOrder_reverse v = (if v = DESCENDING then True else False)"

datatype EmojiCountType = MESSAGE_CONTENT | MESSAGE_REACTION

text \<open>
  What the module reads of a \<^verbatim>\<open>discord.Emoji\<close>: its \<^verbatim>\<open>id\<close> and its \<^verbatim>\<open>name\<close>.
  Python integers are unbounded, hence \<^typ>\<open>int\<close>.
\<close>

record Emoji =
  emoji_id :: int
  emoji_name :: string

text \<open>
  The class \<^verbatim>\<open>_EmojiCounter\<close>. Its dictionary \<^verbatim>\<open>_counts\<close> is built by
  \<^verbatim>\<open>{t: 0 for t in _EmojiCountType}\<close> and afterwards only written by \<^verbatim>\<open>+= 1\<close> at a
  member of the enum, so its key set is the whole enum at every moment: it is a total
  function on \<^typ>\<open>EmojiCountType\<close>.
\<close>

record EmojiCounter =
  emoji :: Emoji
  rank :: int
  counts :: "EmojiCountType \<Rightarrow> int"

definition EmojiCounter_init :: "Emoji \<Rightarrow> EmojiCounter" where
  "EmojiCounter_init e = \<lparr>emoji = e, rank = 0, counts = (\<lambda>t. 0)\<rparr>"

definition increment :: "EmojiCountType \<Rightarrow> EmojiCounter \<Rightarrow> EmojiCounter" where
  "increment count_type c = c\<lparr>counts := (counts c)(count_type := counts c count_type + 1)\<rparr>"

definition content_count :: "EmojiCounter \<Rightarrow> int" where
  "content_count c = counts c MESSAGE_CONTENT"

definition reaction_count :: "EmojiCounter \<Rightarrow> int" where
  "reaction_count c = counts c MESSAGE_REACTION"

text \<open>\<^verbatim>\<open>sum(self._counts.values())\<close>: the values in the enum's order.\<close>

definition total_count :: "EmojiCounter \<Rightarrow> int" where
  "total_count c = sum_list (map (counts c) [MESSAGE_CONTENT, MESSAGE_REACTION])"

text \<open>
  The parts of discord.py's objects that \<^verbatim>\<open>count_emojis\<close> reads. A user (a message's
  author, a reactor) has an id and a bot flag; \<^verbatim>\<open>reaction.emoji\<close> is an \<^verbatim>\<open>Emoji\<close>, a
  \<^verbatim>\<open>PartialEmoji\<close> or a plain string, of which only the first passes
  \<^verbatim>\<open>isinstance(reaction.emoji, discord.Emoji)\<close>; \<^verbatim>\<open>reaction.users()\<close> is the list of
  users it yields.
\<close>

record User =
  user_id :: int
  bot :: bool

datatype ReactionEmoji =
    CustomEmoji Emoji
  | PartialEmoji "int option" string
  | UnicodeEmoji string

record Reaction =
  reaction_emoji :: ReactionEmoji
  users :: "User list"

record Message =
  author :: User
  content :: string
  reactions :: "Reaction list"

text \<open>
  The fields of the cog \<^verbatim>\<open>EmojiRanking\<close> that counting and ranking read:
  \<^verbatim>\<open>self._order\<close>, \<^verbatim>\<open>self._rank\<close>, \<^verbatim>\<open>self._contains_bot\<close>, \<^verbatim>\<open>self._user_ids\<close>.
\<close>

record EmojiRanking =
  self_order :: SortOrder
  self_rank :: int
  self_contains_bot :: bool
  self_user_ids :: "int list"

text \<open>
  Counters are objects: the list \<^verbatim>\<open>counters\<close> and the list \<^verbatim>\<open>sorted_counters\<close> hold
  references to the same objects, and both functions write through them. The store maps
  a reference to the object's current value.
\<close>

type_synonym ref = nat

type_synonym heap = "ref \<Rightarrow> EmojiCounter"

section \<open>Python built-ins used by the module\<close>

datatype error = IndexError

text \<open>\<^verbatim>\<open>xs[i]\<close>: a negative index counts from the end, an index out of range raises.\<close>

definition getitem :: "'a list \<Rightarrow> int \<Rightarrow> error + 'a" where
  "getitem xs i =
     (let j = (if i < 0 then i + int (length xs) else i)
      in if j < 0 \<or> int (length xs) \<le> j then Inl IndexError else Inr (xs ! nat j))"

text \<open>\<^verbatim>\<open>xs[0:n]\<close>: a negative stop counts from the end and is clipped at 0.\<close>

definition slice_to :: "'a list \<Rightarrow> int \<Rightarrow> 'a list" where
  "slice_to xs n =
     (if n < 0 then take (nat (int (length xs) + n)) xs else take (nat n) xs)"

text \<open>
  \<^verbatim>\<open>sorted(xs, key=k, reverse=r)\<close>. Python's sort is stable; with \<^verbatim>\<open>reverse=True\<close>
  CPython reverses the list, sorts it stably in ascending order and reverses the result,
  which keeps elements with equal keys in their original order.
\<close>

definition sorted_py :: "('a \<Rightarrow> int) \<Rightarrow> bool \<Rightarrow> 'a list \<Rightarrow> 'a list" where
  "sorted_py k r xs = (if r then rev (sort_key k (rev xs)) else sort_key k xs)"

text \<open>\<^verbatim>\<open>needle in haystack\<close> on strings: the needle occurs at some position.\<close>

fun str_in :: "string \<Rightarrow> string \<Rightarrow> bool" where
  "str_in needle [] = (needle = [])"
| "str_in needle (c # cs) = (prefix needle (c # cs) \<or> str_in needle cs)"

section \<open>\<^verbatim>\<open>EmojiRanking.count_emojis\<close>\<close>

text \<open>
  The body of \<^verbatim>\<open>for reaction in message.reactions\<close> for one counter object: each
  \<^verbatim>\<open>continue\<close> leaves the counter as it is.
\<close>

definition count_reaction :: "EmojiRanking \<Rightarrow> EmojiCounter \<Rightarrow> Reaction \<Rightarrow> EmojiCounter" where
  "count_reaction self counter reaction =
     (case reaction_emoji reaction of
        CustomEmoji e \<Rightarrow>
          if emoji_id e \<noteq> emoji_id (emoji counter) then counter
          else
            let us = users reaction;
                us = (if self_user_ids self \<noteq> []
                      then filter (\<lambda>u. user_id u \<in> set (self_user_ids self)) us else us)
            in if us = [] then counter
               else if \<not> self_contains_bot self \<and> list_all bot us then counter
               else increment MESSAGE_REACTION counter
      | PartialEmoji i n \<Rightarrow> counter
      | UnicodeEmoji s \<Rightarrow> counter)"

text \<open>The body of \<^verbatim>\<open>for counter in counters\<close> for one message and one counter object.\<close>

definition count_counter :: "EmojiRanking \<Rightarrow> Message \<Rightarrow> bool \<Rightarrow> EmojiCounter \<Rightarrow> EmojiCounter" where
  "count_counter self message author_matches counter =
     (let counter1 =
            (if author_matches \<and> str_in (emoji_name (emoji counter)) (content message)
             then (if self_contains_bot self \<or> \<not> bot (author message)
                   then increment MESSAGE_CONTENT counter else counter)
             else counter)
      in foldl (count_reaction self) counter1 (reactions message))"

text \<open>The body of \<^verbatim>\<open>for message in messages\<close>: every counter of the list is visited.\<close>

definition count_message :: "EmojiRanking \<Rightarrow> ref list \<Rightarrow> heap \<Rightarrow> Message \<Rightarrow> heap" where
  "count_message self counters h message =
     (let author_matches =
            (self_user_ids self = [] \<or> user_id (author message) \<in> set (self_user_ids self))
      in foldl (\<lambda>h' c. h'(c := count_counter self message author_matches (h' c))) h counters)"

definition count_emojis :: "EmojiRanking \<Rightarrow> heap \<Rightarrow> ref list \<Rightarrow> Message list \<Rightarrow> heap" where
  "count_emojis self h counters messages = foldl (count_message self counters) h messages"

text \<open>
  The loop of \<^verbatim>\<open>_execute\<close> over the channels: a channel whose history raises
  \<^verbatim>\<open>discord.Forbidden\<close> is logged and skipped, every other history goes through
  \<^verbatim>\<open>count_emojis\<close> against the same counters.
\<close>

datatype history = Forbidden | Messages "Message list"

fun count_channels :: "EmojiRanking \<Rightarrow> heap \<Rightarrow> ref list \<Rightarrow> history list \<Rightarrow> heap" where
  "count_channels self h counters [] = h"
| "count_channels self h counters (Forbidden # chs) = count_channels self h counters chs"
| "count_channels self h counters (Messages ms # chs) =
     count_channels self (count_emojis self h counters ms) counters chs"

section \<open>\<^verbatim>\<open>EmojiRanking.sort_ranking\<close>\<close>

text \<open>
  One turn of \<^verbatim>\<open>for index, counter in enumerate(sorted_counters)\<close>. The read
  \<^verbatim>\<open>sorted_counters[index - 1]\<close> is the only place that can raise.
\<close>

definition rank_step :: "ref list \<Rightarrow> heap \<Rightarrow> nat \<times> ref \<Rightarrow> error + heap" where
  "rank_step sorted_counters h p =
     (let index = fst p; counter = snd p; r = int index + 1
      in if index > 0
         then (case getitem sorted_counters (int index - 1) of
                 Inl e \<Rightarrow> Inl e
               | Inr prev \<Rightarrow>
                   let r = (if total_count (h prev) = total_count (h counter)
                            then rank (h prev) else r)
                   in Inr (h(counter := (h counter)\<lparr>rank := r\<rparr>)))
         else Inr (h(counter := (h counter)\<lparr>rank := r\<rparr>)))"

fun rank_loop :: "ref list \<Rightarrow> heap \<Rightarrow> (nat \<times> ref) list \<Rightarrow> error + heap" where
  "rank_loop sorted_counters h [] = Inr h"
| "rank_loop sorted_counters h (p # ps) =
     (case rank_step sorted_counters h p of
        Inl e \<Rightarrow> Inl e
      | Inr h' \<Rightarrow> rank_loop sorted_counters h' ps)"

definition sort_ranking ::
  "EmojiRanking \<Rightarrow> heap \<Rightarrow> ref list \<Rightarrow> int \<Rightarrow> error + (heap \<times> ref list)" where
  "sort_ranking self h counters slice_num =
     (let reverse = SortOrder_reverse (self_order self);
          sorted_counters =
            slice_to (sorted_py (\<lambda>c. total_count (h c)) reverse counters) slice_num
      in case rank_loop sorted_counters h (enumerate 0 sorted_counters) of
           Inl e \<Rightarrow> Inl e
         | Inr h' \<Rightarrow> Inr (h', sorted_counters))"

text \<open>
  The two lines of \<^verbatim>\<open>_execute\<close> that call the ranking: the requested size is clamped
  to at least 1 and at most the number of emojis of the guild.
\<close>

definition execute_rank :: "EmojiRanking \<Rightarrow> nat \<Rightarrow> int" where
  "execute_rank self n_emojis = max 1 (min (self_rank self) (int n_emojis))"

section \<open>Notions used in the proofs\<close>

text \<open>
  A list has no gap for a key when equal keys are contiguous: whenever an earlier position
  carries the key of position \<open>m\<close>, so does position \<open>m - 1\<close>. Sorted lists, in
  either direction, have no gap.
\<close>

definition no_gap :: "('a \<Rightarrow> int) \<Rightarrow> 'a list \<Rightarrow> bool" where
  "no_gap k xs \<longleftrightarrow>
     (\<forall>m j. j < m \<and> m < length xs \<and> k (xs ! j) = k (xs ! m) \<longrightarrow> k (xs ! (m - 1)) = k (xs ! m))"

text \<open>The position of the first element of a list that has the key of \<open>x\<close>.\<close>

definition first_pos :: "('a \<Rightarrow> int) \<Rightarrow> 'a list \<Rightarrow> 'a \<Rightarrow> nat" where
  "first_pos k xs x = length (takeWhile (\<lambda>y. k y \<noteq> k x) xs)"

text \<open>
  The store after the ranking loop has visited the first \<open>n\<close> positions of
  \<open>sc\<close>: every object met so far has the rank of its key's first position, counted
  from 1, and nothing else has changed.
\<close>

definition ranked :: "heap \<Rightarrow> ref list \<Rightarrow> nat \<Rightarrow> heap" where
  "ranked h sc n =
     (\<lambda>c. if c \<in> set (take n sc)
          then (h c)\<lparr>rank := int (first_pos (\<lambda>x. total_count (h x)) sc c) + 1\<rparr>
          else h c)"

text \<open>
  The specification's condition for a text occurrence, in its words: the symbol's display
  name is a literal substring of the message text (\<^const>\<open>sublist\<close>: the text is some
  prefix, then the name, then some suffix), the author is allowed when there is an author
  filter, and it is not the case that bot activity is excluded and the author is a bot.
\<close>

definition spec_text_match :: "EmojiRanking \<Rightarrow> Emoji \<Rightarrow> Message \<Rightarrow> bool" where
  "spec_text_match self symb m \<longleftrightarrow>
     sublist (emoji_name symb) (content m)
     \<and> (self_user_ids self = [] \<or> user_id (author m) \<in> set (self_user_ids self))
     \<and> \<not> (\<not> self_contains_bot self \<and> bot (author m))"

text \<open>
  The specification's condition for a reaction entry to count for a symbol, in its words:
  the entry refers to a catalog symbol of the same identity, and the users of the entry,
  narrowed to the allowed authors when there is an author filter, are not empty and are not
  all bots while bot activity is excluded.
\<close>

definition spec_reaction_counts :: "EmojiRanking \<Rightarrow> Emoji \<Rightarrow> Reaction \<Rightarrow> bool" where
  "spec_reaction_counts self symb re \<longleftrightarrow>
     (case reaction_emoji re of
        CustomEmoji e \<Rightarrow> emoji_id e = emoji_id symb
      | PartialEmoji i n \<Rightarrow> False
      | UnicodeEmoji s \<Rightarrow> False)
     \<and> (let narrowed = filter (\<lambda>u. self_user_ids self = [] \<or> user_id u \<in> set (self_user_ids self))
                          (users re)
        in narrowed \<noteq> [] \<and> \<not> (\<not> self_contains_bot self \<and> (\<forall>u \<in> set narrowed. bot u)))"

text \<open>
  What one message adds to each of the two tallies of a counter for a symbol.
\<close>

definition gain :: "EmojiRanking \<Rightarrow> Emoji \<Rightarrow> Message \<Rightarrow> EmojiCountType \<Rightarrow> int" where
  "gain self symb m t =
     (case t of
        MESSAGE_CONTENT \<Rightarrow> (if spec_text_match self symb m then 1 else 0)
      | MESSAGE_REACTION \<Rightarrow> int (length (filter (spec_reaction_counts self symb) (reactions m))))"

text \<open>
  Adding to the tallies of a counter, key by key.
\<close>

definition add_counts :: "(EmojiCountType \<Rightarrow> int) \<Rightarrow> EmojiCounter \<Rightarrow> EmojiCounter" where
  "add_counts d c = c\<lparr>counts := (\<lambda>t. counts c t + d t)\<rparr>"

text \<open>
  The messages that reach \<^verbatim>\<open>count_emojis\<close> from a list of channel histories, in order.
\<close>

definition all_messages :: "history list \<Rightarrow> Message list" where
  "all_messages chs = concat (map (\<lambda>ch. case ch of Forbidden \<Rightarrow> [] | Messages ms \<Rightarrow> ms) chs)"

section \<open>Sorting and slicing\<close>

text \<open>
  A stable sort is determined by its key, so the reversed sort of CPython is the stable
  sort by the negated key. Either way the result has no gap, and neither has a prefix of
  it.
\<close>

lemma sorted_py_asc: "sorted_py k False xs = sort_key k xs"
  by (simp add: sorted_py_def)

lemma sorted_py_desc: "sorted_py k True xs = sort_key (\<lambda>x. - k x) xs"
proof -
  let ?ys = "rev (sort_key k (rev xs))"
  have m: "mset ?ys = mset xs" by simp
  have st: "filter (\<lambda>x. - k j = - k x) ?ys = filter (\<lambda>x. - k j = - k x) xs" for j
  proof -
    have "filter (\<lambda>y. k y = k j) (sort_key k (rev xs)) = filter (\<lambda>y. k y = k j) (rev xs)"
      by (rule sort_key_stable)
    then have "rev (filter (\<lambda>y. k y = k j) (sort_key k (rev xs))) = filter (\<lambda>y. k y = k j) xs"
      by (simp add: rev_filter)
    moreover have "(\<lambda>x. - k j = - k x) = (\<lambda>y. k y = k j)" by auto
    ultimately show ?thesis by (simp add: rev_filter)
  qed
  have "sorted (map k (sort_key k (rev xs)))" by simp
  then have so: "sorted (map (\<lambda>x. - k x) ?ys)"
    by (simp add: sorted_map sorted_wrt_rev)
  have "sort_key (\<lambda>x. - k x) xs = ?ys"
    using m st so by (rule properties_for_sort_key)
  then show ?thesis by (simp add: sorted_py_def)
qed

lemma slice_to_take: "\<exists>m. slice_to xs n = take m xs"
  by (auto simp: slice_to_def)

lemma slice_to_nonneg: "0 \<le> n \<Longrightarrow> slice_to xs n = take (nat n) xs"
  by (simp add: slice_to_def)

lemma no_gap_sorted:
  assumes "sorted (map f xs)" and eq: "\<And>a b. f a = f b \<longleftrightarrow> k a = k b"
  shows "no_gap k xs"
  unfolding no_gap_def
proof (intro allI impI)
  fix m j
  assume a: "j < m \<and> m < length xs \<and> k (xs ! j) = k (xs ! m)"
  then have "f (xs ! j) \<le> f (xs ! (m - 1))" "f (xs ! (m - 1)) \<le> f (xs ! m)"
    using assms(1) by (auto simp: sorted_iff_nth_mono)
  moreover have "f (xs ! j) = f (xs ! m)" using a eq by simp
  ultimately have "f (xs ! (m - 1)) = f (xs ! m)" by simp
  then show "k (xs ! (m - 1)) = k (xs ! m)" using eq by simp
qed

lemma no_gap_take: "no_gap k xs \<Longrightarrow> no_gap k (take n xs)"
  unfolding no_gap_def by (metis length_take min_less_iff_conj nth_take less_imp_diff_less less_trans)

lemma no_gap_sorted_py: "no_gap k (sorted_py k r xs)"
proof (cases r)
  case True
  have "sorted (map (\<lambda>x. - k x) (sort_key (\<lambda>x. - k x) xs))" by (rule sorted_sort_key)
  then have "no_gap k (sort_key (\<lambda>x. - k x) xs)" by (rule no_gap_sorted) simp
  then show ?thesis using True by (simp add: sorted_py_desc)
next
  case False
  have "sorted (map k (sort_key k xs))" by (rule sorted_sort_key)
  then have "no_gap k (sort_key k xs)" by (rule no_gap_sorted) simp
  then show ?thesis using False by (simp add: sorted_py_asc)
qed

lemma no_gap_slice: "no_gap k (slice_to (sorted_py k r xs) n)"
  using no_gap_take [OF no_gap_sorted_py] slice_to_take by metis

section \<open>The ranking loop in closed form\<close>

text \<open>
  On a list without gaps the loop never raises, and after it has visited \<open>m\<close>
  positions the store is \<^term>\<open>ranked h sc m\<close>. The same object may occur at several
  positions of the list: its later visits write the rank its first visit wrote.
\<close>

lemma total_count_rank_update [simp]: "total_count (c\<lparr>rank := r\<rparr>) = total_count c"
  by (simp add: total_count_def)

lemma total_count_ranked [simp]: "total_count (ranked h sc n c) = total_count (h c)"
  by (simp add: ranked_def)

lemma first_pos_cong: "k x = k y \<Longrightarrow> first_pos k xs x = first_pos k xs y"
  by (simp add: first_pos_def)

lemma first_pos_hd: "0 < length xs \<Longrightarrow> first_pos k xs (xs ! 0) = 0"
  by (cases xs) (simp_all add: first_pos_def)

lemma first_pos_jump:
  assumes "no_gap k xs" "0 < m" "m < length xs" "k (xs ! (m - 1)) \<noteq> k (xs ! m)"
  shows "first_pos k xs (xs ! m) = m"
proof -
  have "\<And>j. j < m \<Longrightarrow> k (xs ! j) \<noteq> k (xs ! m)"
    using assms unfolding no_gap_def by blast
  then have "takeWhile (\<lambda>y. k y \<noteq> k (xs ! m)) xs = take m xs"
    by (intro takeWhile_eq_take_P_nth) auto
  then show ?thesis using assms(3) by (simp add: first_pos_def)
qed

lemma getitem_prev: "0 < m \<Longrightarrow> m < length xs \<Longrightarrow> getitem xs (int m - 1) = Inr (xs ! (m - 1))"
  by (auto simp: getitem_def Let_def nat_diff_distrib')

lemma ranked_0 [simp]: "ranked h sc 0 = h"
  by (simp add: ranked_def)

lemma ranked_Suc:
  assumes "m < length sc"
  shows "(ranked h sc m)(sc ! m := (ranked h sc m (sc ! m))
            \<lparr>rank := int (first_pos (\<lambda>x. total_count (h x)) sc (sc ! m)) + 1\<rparr>)
         = ranked h sc (Suc m)"
  using assms by (auto simp: ranked_def fun_eq_iff take_Suc_conv_app_nth)

lemma rank_step_ranked:
  assumes ng: "no_gap (\<lambda>x. total_count (h x)) sc" and m: "m < length sc"
  shows "rank_step sc (ranked h sc m) (m, sc ! m) = Inr (ranked h sc (Suc m))"
proof (cases "m = 0")
  case True
  then show ?thesis
    using m ranked_Suc [OF m, of h] by (simp add: rank_step_def first_pos_hd)
next
  case False
  let ?k = "\<lambda>x. total_count (h x)"
  have g: "getitem sc (int m - 1) = Inr (sc ! (m - 1))"
    using False m by (simp add: getitem_prev)
  have pm: "sc ! (m - 1) \<in> set (take m sc)"
    using False m by (auto simp: in_set_conv_nth intro!: exI [of _ "m - 1"])
  then have rp: "rank (ranked h sc m (sc ! (m - 1))) = int (first_pos ?k sc (sc ! (m - 1))) + 1"
    by (simp add: ranked_def)
  show ?thesis
  proof (cases "?k (sc ! (m - 1)) = ?k (sc ! m)")
    case True
    then have "first_pos ?k sc (sc ! (m - 1)) = first_pos ?k sc (sc ! m)"
      by (rule first_pos_cong)
    then show ?thesis
      using False True g rp ranked_Suc [OF m, of h] by (simp add: rank_step_def)
  next
    case neq: False
    have "first_pos ?k sc (sc ! m) = m"
      using ng False m neq by (intro first_pos_jump) auto
    then show ?thesis
      using False neq g ranked_Suc [OF m, of h] by (simp add: rank_step_def)
  qed
qed

lemma rank_loop_ranked:
  assumes ng: "no_gap (\<lambda>x. total_count (h x)) sc"
  shows "m \<le> length sc \<Longrightarrow>
         rank_loop sc (ranked h sc m) (enumerate m (drop m sc)) = Inr (ranked h sc (length sc))"
proof (induction "length sc - m" arbitrary: m)
  case 0
  then show ?case by simp
next
  case (Suc d)
  then have m: "m < length sc" by simp
  have "drop m sc = sc ! m # drop (Suc m) sc"
    using m by (simp add: Cons_nth_drop_Suc)
  then have e: "enumerate m (drop m sc) = (m, sc ! m) # enumerate (Suc m) (drop (Suc m) sc)"
    by simp
  have "d = length sc - Suc m" using Suc.hyps(2) by simp
  then have "rank_loop sc (ranked h sc (Suc m)) (enumerate (Suc m) (drop (Suc m) sc))
             = Inr (ranked h sc (length sc))"
    using m by (intro Suc.hyps(1)) auto
  then show ?case
    using rank_step_ranked [OF ng m] by (simp add: e)
qed

lemma sort_ranking_eq:
  "sort_ranking self h counters n =
     (let sc = slice_to (sorted_py (\<lambda>c. total_count (h c)) (SortOrder_reverse (self_order self)) counters) n
      in Inr (ranked h sc (length sc), sc))"
proof -
  let ?sc = "slice_to (sorted_py (\<lambda>c. total_count (h c)) (SortOrder_reverse (self_order self)) counters) n"
  have "no_gap (\<lambda>x. total_count (h x)) ?sc" by (rule no_gap_slice)
  then have "rank_loop ?sc (ranked h ?sc 0) (enumerate 0 (drop 0 ?sc)) = Inr (ranked h ?sc (length ?sc))"
    by (intro rank_loop_ranked) auto
  then show ?thesis by (simp add: sort_ranking_def Let_def)
qed

lemma emoji_ranked [simp]: "emoji (ranked h sc n c) = emoji (h c)"
  by (simp add: ranked_def)

lemma counts_ranked [simp]: "counts (ranked h sc n c) = counts (h c)"
  by (simp add: ranked_def)

lemma ranked_outside: "c \<notin> set sc \<Longrightarrow> ranked h sc n c = h c"
  by (auto simp: ranked_def dest: in_set_takeD)

lemma rank_ranked_nth:
  "i < length sc \<Longrightarrow>
   rank (ranked h sc (length sc) (sc ! i)) = int (first_pos (\<lambda>x. total_count (h x)) sc (sc ! i)) + 1"
  by (simp add: ranked_def)

lemma length_sorted_py [simp]: "length (sorted_py k r xs) = length xs"
  by (simp add: sorted_py_def)

lemma mset_sorted_py [simp]: "mset (sorted_py k r xs) = mset xs"
  by (simp add: sorted_py_def)

lemma set_sorted_py [simp]: "set (sorted_py k r xs) = set xs"
  by (simp add: sorted_py_def)

lemma distinct_sorted_py [simp]: "distinct (sorted_py k r xs) = distinct xs"
  by (simp add: sorted_py_def)

lemma sorted_py_stable:
  "filter (\<lambda>c. k c = v) (sorted_py k r xs) = filter (\<lambda>c. k c = v) xs"
proof (cases r)
  case True
  have "filter (\<lambda>c. - k c = - v) (sort_key (\<lambda>x. - k x) xs) = filter (\<lambda>c. - k c = - v) xs"
    by (rule sort_key_stable)
  then show ?thesis using True by (simp add: sorted_py_desc)
next
  case False
  then show ?thesis by (simp add: sorted_py_asc sort_key_stable)
qed

lemma sorted_py_ascending: "sorted (map k (sorted_py k False xs))"
  by (simp add: sorted_py_asc)

lemma sorted_py_descending: "sorted (rev (map k (sorted_py k True xs)))"
proof -
  have "sorted (map k (sort_key k (rev xs)))" by (rule sorted_sort_key)
  then show ?thesis by (simp add: sorted_py_def rev_map)
qed

lemma sort_key_take_sorted: "sort_key f (take m (sort_key f xs)) = take m (sort_key f xs)"
proof -
  have "sorted (take m (map f (sort_key f xs)))"
    by (intro sorted_wrt_take sorted_sort_key)
  then show ?thesis by (simp add: take_map sort_key_id_if_sorted)
qed

lemma sorted_py_take_sorted_py:
  "sorted_py k r (take m (sorted_py k r xs)) = take m (sorted_py k r xs)"
  by (cases r) (simp_all add: sorted_py_desc sorted_py_asc sort_key_take_sorted)

lemma slice_to_length: "slice_to xs (int (length xs)) = xs"
  by (simp add: slice_to_def)

lemma sort_ranking_rank_of:
  assumes "sort_ranking self h counters n = Inr (h', out)" and "c \<in> set out"
  shows "rank (h' c) = int (first_pos (\<lambda>x. total_count (h x)) out c) + 1"
  using assms by (auto simp: sort_ranking_eq Let_def ranked_def)

lemma ranked_only_rank: "ranked h sc n c = (h c)\<lparr>rank := rank (ranked h sc n c)\<rparr>"
  by (simp add: ranked_def)

section \<open>The counting pass in closed form\<close>

text \<open>
  The loops of \<^verbatim>\<open>count_emojis\<close> only ever add to the tallies of an object, and what a
  message adds depends on the object's emoji alone, which no loop changes. So a pass adds,
  for every object, the gains of its messages, once for each occurrence of the object in
  the list of counters.
\<close>

lemma str_in_sublist: "str_in n s \<longleftrightarrow> sublist n s"
  by (induction s) (simp_all add: sublist_Cons_right)

lemma emoji_add_counts [simp]: "emoji (add_counts d c) = emoji c"
  by (simp add: add_counts_def)

lemma rank_add_counts [simp]: "rank (add_counts d c) = rank c"
  by (simp add: add_counts_def)

lemma counts_add_counts [simp]: "counts (add_counts d c) t = counts c t + d t"
  by (simp add: add_counts_def)

lemma add_counts_add_counts: "add_counts d (add_counts d' c) = add_counts (\<lambda>t. d' t + d t) c"
  by (simp add: add_counts_def add.assoc)

lemma add_counts_zero [simp]: "add_counts (\<lambda>t. 0) c = c"
  by (simp add: add_counts_def)

lemma increment_add_counts:
  "increment t c = add_counts (\<lambda>t'. if t' = t then 1 else 0) c"
  by (auto simp: increment_def add_counts_def fun_eq_iff)

lemma count_reaction_spec:
  "count_reaction self c re =
     (if spec_reaction_counts self (emoji c) re then increment MESSAGE_REACTION c else c)"
proof (cases "self_user_ids self = []")
  case True
  then show ?thesis
    by (auto simp: count_reaction_def spec_reaction_counts_def Let_def list_all_iff
        split: ReactionEmoji.splits)
next
  case False
  then show ?thesis
    by (auto simp: count_reaction_def spec_reaction_counts_def Let_def list_all_iff
        split: ReactionEmoji.splits)
qed

lemma foldl_count_reaction:
  "foldl (count_reaction self) c rs =
     add_counts (\<lambda>t. if t = MESSAGE_REACTION
                      then int (length (filter (spec_reaction_counts self (emoji c)) rs)) else 0) c"
proof (induction rs arbitrary: c)
  case Nil
  show ?case by (simp cong: if_cong)
next
  case (Cons re rs)
  let ?P = "spec_reaction_counts self (emoji c)"
  have step: "foldl (count_reaction self) c (re # rs)
        = add_counts (\<lambda>t. if t = MESSAGE_REACTION
                      then int (length (filter (spec_reaction_counts self
                              (emoji (count_reaction self c re))) rs)) else 0)
            (count_reaction self c re)"
    by (simp only: foldl_Cons Cons.IH)
  have e: "emoji (count_reaction self c re) = emoji c"
    by (simp add: count_reaction_spec increment_add_counts)
  show ?case
  proof (cases "?P re")
    case True
    then have "count_reaction self c re
               = add_counts (\<lambda>t. if t = MESSAGE_REACTION then 1 else 0) c"
      by (simp add: count_reaction_spec increment_add_counts)
    then show ?thesis
      using True unfolding step e
      by (auto simp: add_counts_add_counts intro!: arg_cong2 [of _ _ _ _ add_counts])
  next
    case False
    then have "count_reaction self c re = c" by (simp add: count_reaction_spec)
    then show ?thesis using False unfolding step e by (simp cong: if_cong)
  qed
qed

lemma count_counter_gain:
  "count_counter self m
     (self_user_ids self = [] \<or> user_id (author m) \<in> set (self_user_ids self)) c
   = add_counts (gain self (emoji c) m) c"
proof -
  let ?am = "self_user_ids self = [] \<or> user_id (author m) \<in> set (self_user_ids self)"
  have t: "(?am \<and> str_in (emoji_name (emoji c)) (content m))
           \<and> (self_contains_bot self \<or> \<not> bot (author m)) \<longleftrightarrow> spec_text_match self (emoji c) m"
    by (auto simp: spec_text_match_def str_in_sublist)
  have g: "gain self (emoji c) m =
        (\<lambda>t. (if t = MESSAGE_CONTENT \<and> spec_text_match self (emoji c) m then 1 else 0)
            + (if t = MESSAGE_REACTION
               then int (length (filter (spec_reaction_counts self (emoji c)) (reactions m)))
               else 0))"
    by (auto simp: gain_def fun_eq_iff split: EmojiCountType.splits)
  show ?thesis
  proof (cases "spec_text_match self (emoji c) m")
    case True
    then have "count_counter self m ?am c
               = foldl (count_reaction self) (increment MESSAGE_CONTENT c) (reactions m)"
      using t by (auto simp: count_counter_def)
    then show ?thesis using True
      by (simp add: g foldl_count_reaction increment_add_counts add_counts_add_counts
          cong: if_cong)
  next
    case False
    then have "count_counter self m ?am c = foldl (count_reaction self) c (reactions m)"
      using t by (auto simp: count_counter_def)
    then show ?thesis using False
      by (simp add: g foldl_count_reaction)
  qed
qed

lemma foldl_update_each:
  "foldl (\<lambda>h' c. h'(c := F (h' c))) h cs = (\<lambda>c. (F ^^ count_list cs c) (h c))"
proof (induction cs arbitrary: h)
  case Nil
  then show ?case by simp
next
  case (Cons x xs)
  show ?case
    by (simp only: foldl_Cons Cons.IH) (auto simp: fun_eq_iff funpow_swap1)
qed

lemma funpow_add_counts:
  "((\<lambda>c. add_counts (g (emoji c)) c) ^^ n) c = add_counts (\<lambda>t. int n * g (emoji c) t) c"
proof (induction n)
  case 0
  then show ?case by simp
next
  case (Suc n)
  then show ?case
    by (simp add: add_counts_add_counts algebra_simps)
qed

lemma count_message_gain:
  "count_message self cs h m =
     (\<lambda>c. add_counts (\<lambda>t. int (count_list cs c) * gain self (emoji (h c)) m t) (h c))"
proof -
  have "count_message self cs h m
        = foldl (\<lambda>h' c. h'(c := (\<lambda>c. add_counts (gain self (emoji c) m) c) (h' c))) h cs"
    by (simp add: count_message_def count_counter_gain)
  also have "\<dots> = (\<lambda>c. ((\<lambda>c. add_counts (gain self (emoji c) m) c) ^^ count_list cs c) (h c))"
    by (rule foldl_update_each)
  also have "\<dots> = (\<lambda>c. add_counts (\<lambda>t. int (count_list cs c) * gain self (emoji (h c)) m t) (h c))"
    using funpow_add_counts [where g = "\<lambda>e. gain self e m"] by simp
  finally show ?thesis .
qed

lemma count_emojis_gain:
  "count_emojis self h cs ms =
     (\<lambda>c. add_counts
            (\<lambda>t. int (count_list cs c) * (\<Sum>m\<leftarrow>ms. gain self (emoji (h c)) m t)) (h c))"
proof (induction ms arbitrary: h)
  case Nil
  then show ?case by (simp add: count_emojis_def)
next
  case (Cons m ms)
  have "count_emojis self h (cs) (m # ms) = count_emojis self (count_message self cs h m) cs ms"
    by (simp add: count_emojis_def)
  then show ?case
    by (simp add: Cons.IH count_message_gain add_counts_add_counts algebra_simps)
qed

lemma count_emojis_append:
  "count_emojis self h cs (ms @ ms') = count_emojis self (count_emojis self h cs ms) cs ms'"
  by (simp add: count_emojis_def)

lemma count_channels_all_messages:
  "count_channels self h cs chs = count_emojis self h cs (all_messages chs)"
proof (induction self h cs chs rule: count_channels.induct)
  case (1 self h counters)
  then show ?case by (simp add: all_messages_def count_emojis_def)
next
  case (2 self h counters chs)
  then show ?case by (simp add: all_messages_def)
next
  case (3 self h counters ms chs)
  then show ?case
    using count_emojis_append [of self h counters ms] by (simp add: all_messages_def)
qed

lemma sum_list_mset_eq:
  fixes f :: "'a \<Rightarrow> int"
  assumes "mset xs = mset ys"
  shows "(\<Sum>x\<leftarrow>xs. f x) = (\<Sum>x\<leftarrow>ys. f x)"
proof -
  have "sum_mset (image_mset f (mset xs)) = sum_mset (image_mset f (mset ys))"
    using assms by simp
  then show ?thesis by (simp add: sum_mset_sum_list flip: mset_map)
qed

lemma count_emojis_mset:
  "mset ms = mset ms' \<Longrightarrow> count_emojis self h cs ms = count_emojis self h cs ms'"
  using sum_list_mset_eq [of ms ms'] by (simp add: count_emojis_gain)

lemma content_count_count_emojis:
  "content_count (count_emojis self h cs ms c) =
     content_count (h c)
     + int (count_list cs c) * int (length (filter (spec_text_match self (emoji (h c))) ms))"
proof -
  have "(\<Sum>m\<leftarrow>ms. gain self e m MESSAGE_CONTENT) = int (length (filter (spec_text_match self e) ms))"
    for e
    by (induction ms) (simp_all add: gain_def)
  then show ?thesis by (simp add: count_emojis_gain content_count_def)
qed

lemma reaction_count_count_emojis:
  "reaction_count (count_emojis self h cs ms c) =
     reaction_count (h c)
     + int (count_list cs c)
       * int (length (filter (spec_reaction_counts self (emoji (h c))) (concat (map reactions ms))))"
proof -
  have "(\<Sum>m\<leftarrow>ms. gain self e m MESSAGE_REACTION)
        = int (length (filter (spec_reaction_counts self e) (concat (map reactions ms))))"
    for e
    by (induction ms) (simp_all add: gain_def)
  then show ?thesis by (simp add: count_emojis_gain reaction_count_def)
qed

lemma emoji_count_emojis [simp]: "emoji (count_emojis self h cs ms c) = emoji (h c)"
  by (simp add: count_emojis_gain)

lemma rank_count_emojis [simp]: "rank (count_emojis self h cs ms c) = rank (h c)"
  by (simp add: count_emojis_gain)

lemma total_count_parts: "total_count c = content_count c + reaction_count c"
  by (simp add: total_count_def content_count_def reaction_count_def)

lemma count_list_distinct: "distinct xs \<Longrightarrow> x \<in> set xs \<Longrightarrow> count_list xs x = 1"
  by (induction xs) (auto simp: count_list_0_iff)

lemma content_count_add_counts [simp]:
  "content_count (add_counts d c) = content_count c + d MESSAGE_CONTENT"
  by (simp add: content_count_def)

lemma reaction_count_add_counts [simp]:
  "reaction_count (add_counts d c) = reaction_count c + d MESSAGE_REACTION"
  by (simp add: reaction_count_def)

section \<open>The claims\<close>

subsection \<open>C1\<close>

text \<open>
  Claim C1. For every counter list, order and limit, \<^verbatim>\<open>sort_ranking\<close> returns (it never
  raises) the truncated sorted list \<open>out\<close> and leaves the totals as they were; the first
  entry of \<open>out\<close> has rank 1, and every later entry has the rank of its predecessor when
  the two totals are equal and its 1-based position \<open>i + 1\<close> otherwise (not the
  predecessor's rank plus one).
\<close>

theorem sort_ranking_tie_ranks:
  "\<exists>h' out. sort_ranking self h counters limit = Inr (h', out)
     \<and> out = slice_to (sorted_py (\<lambda>c. total_count (h c))
                (SortOrder_reverse (self_order self)) counters) limit
     \<and> (\<forall>c. total_count (h' c) = total_count (h c))
     \<and> (out \<noteq> [] \<longrightarrow> rank (h' (out ! 0)) = 1)
     \<and> (\<forall>i. 0 < i \<and> i < length out \<longrightarrow>
           rank (h' (out ! i)) =
             (if total_count (h' (out ! (i - 1))) = total_count (h' (out ! i))
              then rank (h' (out ! (i - 1))) else int i + 1))"
proof -
  let ?k = "\<lambda>c. total_count (h c)"
  let ?out = "slice_to (sorted_py ?k (SortOrder_reverse (self_order self)) counters) limit"
  let ?h' = "ranked h ?out (length ?out)"
  have ng: "no_gap ?k ?out" by (rule no_gap_slice)
  have r: "sort_ranking self h counters limit = Inr (?h', ?out)"
    by (simp add: sort_ranking_eq Let_def)
  have first: "?out \<noteq> [] \<longrightarrow> rank (?h' (?out ! 0)) = 1"
    by (simp add: rank_ranked_nth first_pos_hd)
  have later: "rank (?h' (?out ! i)) =
             (if total_count (?h' (?out ! (i - 1))) = total_count (?h' (?out ! i))
              then rank (?h' (?out ! (i - 1))) else int i + 1)"
    if i: "0 < i \<and> i < length ?out" for i
  proof (cases "?k (?out ! (i - 1)) = ?k (?out ! i)")
    case True
    then have "first_pos ?k ?out (?out ! (i - 1)) = first_pos ?k ?out (?out ! i)"
      by (rule first_pos_cong)
    moreover have "i - 1 < length ?out" using i by arith
    ultimately show ?thesis using True i by (simp add: rank_ranked_nth)
  next
    case False
    then have "first_pos ?k ?out (?out ! i) = i"
      using ng i by (intro first_pos_jump) auto
    then show ?thesis using False i by (simp add: rank_ranked_nth)
  qed
  show ?thesis
    using r first later by (intro exI [of _ ?h'] exI [of _ ?out]) simp
qed

text \<open>
  The example of the specification: totals 5, 5, 3, 1 in catalog order, descending, limit 4,
  give the ranks 1, 1, 3, 4.
\<close>

theorem sort_ranking_tie_ranks_witness:
  "\<exists>h' out.
     sort_ranking \<lparr>self_order = DESCENDING, self_rank = 4, self_contains_bot = False,
                    self_user_ids = []\<rparr>
       (\<lambda>c. \<lparr>emoji = \<lparr>emoji_id = int c, emoji_name = ''e''\<rparr>, rank = 0,
              counts = (\<lambda>t. case t of MESSAGE_CONTENT \<Rightarrow> [3, 5, 1, 0] ! c
                                     | MESSAGE_REACTION \<Rightarrow> [2, 0, 2, 1] ! c)\<rparr>)
       [0, 1, 2, 3] 4 = Inr (h', out)
     \<and> out = [0, 1, 2, 3]
     \<and> out \<noteq> [] \<and> 0 < (2::nat) \<and> 2 < length out
     \<and> map (\<lambda>c. total_count (h' c)) out = [5, 5, 3, 1]
     \<and> map (\<lambda>c. rank (h' c)) out = [1, 1, 3, 4]"
proof -
  let ?S = "\<lparr>self_order = DESCENDING, self_rank = 4, self_contains_bot = False,
                    self_user_ids = []\<rparr>"
  let ?H = "\<lambda>c::nat. \<lparr>emoji = \<lparr>emoji_id = int c, emoji_name = ''e''\<rparr>, rank = 0,
              counts = (\<lambda>t. case t of MESSAGE_CONTENT \<Rightarrow> [3, 5, 1, 0] ! c
                                     | MESSAGE_REACTION \<Rightarrow> [2, 0, 2, 1] ! c)\<rparr>"
  obtain h' out where r: "sort_ranking ?S ?H [0, 1, 2, 3] 4 = Inr (h', out)"
    and o: "out = slice_to (sorted_py (\<lambda>c. total_count (?H c))
                (SortOrder_reverse (self_order ?S)) [0, 1, 2, 3]) 4"
    and t: "\<forall>c. total_count (h' c) = total_count (?H c)"
    and f: "out \<noteq> [] \<longrightarrow> rank (h' (out ! 0)) = 1"
    and l: "\<forall>i. 0 < i \<and> i < length out \<longrightarrow>
           rank (h' (out ! i)) =
             (if total_count (h' (out ! (i - 1))) = total_count (h' (out ! i))
              then rank (h' (out ! (i - 1))) else int i + 1)"
    using sort_ranking_tie_ranks [of ?S ?H "[0, 1, 2, 3]" 4] by blast
  have out: "out = [0, 1, 2, 3]"
    unfolding o by (simp add: slice_to_def sorted_py_def SortOrder_reverse_def total_count_def)
  have r0: "rank (h' 0) = 1" using f out by simp
  have r1: "rank (h' 1) = 1"
    using l [rule_format, of 1] r0 t out by (simp add: total_count_def)
  have r2: "rank (h' 2) = 3"
    using l [rule_format, of 2] t out by (simp add: total_count_def)
  have r3: "rank (h' 3) = 4"
    using l [rule_format, of 3] t out by (simp add: total_count_def)
  have tt: "map (\<lambda>c. total_count (h' c)) out = [5, 5, 3, 1]"
    using t out by (simp add: total_count_def)
  show ?thesis
    using r out r0 r1 r2 r3 tt by simp
qed

subsection \<open>C2\<close>

text \<open>
  Claim C2. For a counter that occurs once in the list of counters, a counting pass adds
  to its reaction count the number of reaction entries that satisfy the specification's
  condition; and one reaction entry that carries an emoji with the counter's id adds 1 to
  the reaction count exactly when its users, narrowed to the allowed authors if there are
  any, are not empty and are not all bots while bots are excluded, and adds 0 otherwise. It
  is one per entry, whatever the number of users, and the text count is not touched.
\<close>

theorem count_emojis_reaction_entries:
  assumes "distinct counters" and "c \<in> set counters"
  shows "reaction_count (count_emojis self h counters ms c) =
           reaction_count (h c)
           + int (length (filter (spec_reaction_counts self (emoji (h c)))
                            (concat (map reactions ms))))
         \<and> (\<forall>x re e. reaction_emoji re = CustomEmoji e \<and> emoji_id e = emoji_id (emoji x) \<longrightarrow>
               reaction_count (count_reaction self x re) =
                 reaction_count x
                 + (let narrowed =
                          (if self_user_ids self = [] then users re
                           else filter (\<lambda>u. user_id u \<in> set (self_user_ids self)) (users re))
                    in if narrowed \<noteq> []
                          \<and> \<not> (\<not> self_contains_bot self \<and> (\<forall>u \<in> set narrowed. bot u))
                       then 1 else 0)
               \<and> content_count (count_reaction self x re) = content_count x)"
proof -
  have one: "count_list counters c = 1"
    using assms by (rule count_list_distinct)
  have pass: "reaction_count (count_emojis self h counters ms c) =
           reaction_count (h c)
           + int (length (filter (spec_reaction_counts self (emoji (h c)))
                            (concat (map reactions ms))))"
    by (simp add: reaction_count_count_emojis one)
  have entry: "reaction_count (count_reaction self x re) =
                 reaction_count x
                 + (let narrowed =
                          (if self_user_ids self = [] then users re
                           else filter (\<lambda>u. user_id u \<in> set (self_user_ids self)) (users re))
                    in if narrowed \<noteq> []
                          \<and> \<not> (\<not> self_contains_bot self \<and> (\<forall>u \<in> set narrowed. bot u))
                       then 1 else 0)
               \<and> content_count (count_reaction self x re) = content_count x"
    if "reaction_emoji re = CustomEmoji e \<and> emoji_id e = emoji_id (emoji x)" for x re e
    using that
    by (simp add: count_reaction_def Let_def list_all_iff increment_add_counts)
  show ?thesis using pass entry by blast
qed

text \<open>
  Bots excluded, no author filter: an entry with two bots and one human among its three
  users adds 1; an entry whose users are all bots and an entry with a non-custom emoji add
  nothing.
\<close>

theorem count_emojis_reaction_entries_witness:
  "distinct [0::nat, 1] \<and> 0 \<in> set [0::nat, 1] \<and> 1 \<in> set [0::nat, 1]
   \<and> map (\<lambda>c. reaction_count
         (count_emojis
            \<lparr>self_order = DESCENDING, self_rank = 10, self_contains_bot = False,
               self_user_ids = []\<rparr>
            (\<lambda>c. EmojiCounter_init \<lparr>emoji_id = int c, emoji_name = [''ok'', ''no''] ! c\<rparr>)
            [0, 1]
            [\<lparr>author = \<lparr>user_id = 7, bot = False\<rparr>, content = ''hello'',
              reactions =
                [\<lparr>reaction_emoji = CustomEmoji \<lparr>emoji_id = 0, emoji_name = ''ok''\<rparr>,
                   users = [\<lparr>user_id = 1, bot = True\<rparr>, \<lparr>user_id = 2, bot = False\<rparr>,
                            \<lparr>user_id = 3, bot = True\<rparr>]\<rparr>,
                 \<lparr>reaction_emoji = CustomEmoji \<lparr>emoji_id = 1, emoji_name = ''no''\<rparr>,
                   users = [\<lparr>user_id = 1, bot = True\<rparr>, \<lparr>user_id = 3, bot = True\<rparr>]\<rparr>,
                 \<lparr>reaction_emoji = UnicodeEmoji ''ok'',
                   users = [\<lparr>user_id = 2, bot = False\<rparr>]\<rparr>]\<rparr>]
            c)) [0, 1] = [1, 0]
   \<and> reaction_emoji
         \<lparr>reaction_emoji = CustomEmoji \<lparr>emoji_id = 0, emoji_name = ''ok''\<rparr>,
            users = [\<lparr>user_id = 1, bot = True\<rparr>, \<lparr>user_id = 2, bot = False\<rparr>,
                     \<lparr>user_id = 3, bot = True\<rparr>]\<rparr>
       = CustomEmoji \<lparr>emoji_id = 0, emoji_name = ''ok''\<rparr>
   \<and> emoji_id \<lparr>emoji_id = 0, emoji_name = ''ok''\<rparr>
       = emoji_id (emoji (EmojiCounter_init \<lparr>emoji_id = 0, emoji_name = ''ok''\<rparr>))
   \<and> reaction_count
         (count_reaction
            \<lparr>self_order = DESCENDING, self_rank = 10, self_contains_bot = False,
               self_user_ids = []\<rparr>
            (EmojiCounter_init \<lparr>emoji_id = 0, emoji_name = ''ok''\<rparr>)
            \<lparr>reaction_emoji = CustomEmoji \<lparr>emoji_id = 0, emoji_name = ''ok''\<rparr>,
               users = [\<lparr>user_id = 1, bot = True\<rparr>, \<lparr>user_id = 2, bot = False\<rparr>,
                        \<lparr>user_id = 3, bot = True\<rparr>]\<rparr>) = 1"
proof -
  let ?S = "\<lparr>self_order = DESCENDING, self_rank = 10, self_contains_bot = False,
               self_user_ids = []\<rparr>"
  let ?H = "\<lambda>c::nat. EmojiCounter_init \<lparr>emoji_id = int c, emoji_name = [''ok'', ''no''] ! c\<rparr>"
  let ?E = "\<lparr>emoji_id = 0, emoji_name = ''ok''\<rparr>"
  let ?R = "\<lparr>reaction_emoji = CustomEmoji ?E,
               users = [\<lparr>user_id = 1, bot = True\<rparr>, \<lparr>user_id = 2, bot = False\<rparr>,
                        \<lparr>user_id = 3, bot = True\<rparr>]\<rparr>"
  let ?M = "\<lparr>author = \<lparr>user_id = 7, bot = False\<rparr>, content = ''hello'',
              reactions =
                [?R,
                 \<lparr>reaction_emoji = CustomEmoji \<lparr>emoji_id = 1, emoji_name = ''no''\<rparr>,
                   users = [\<lparr>user_id = 1, bot = True\<rparr>, \<lparr>user_id = 3, bot = True\<rparr>]\<rparr>,
                 \<lparr>reaction_emoji = UnicodeEmoji ''ok'',
                   users = [\<lparr>user_id = 2, bot = False\<rparr>]\<rparr>]\<rparr>"
  have d: "distinct [0::nat, 1]" and m0: "0 \<in> set [0::nat, 1]" and m1: "1 \<in> set [0::nat, 1]"
    by simp_all
  have a: "reaction_count (count_emojis ?S ?H [0, 1] [?M] 0) = 1"
    using count_emojis_reaction_entries [OF d m0, of ?S ?H "[?M]", THEN conjunct1]
    by (simp add: EmojiCounter_init_def reaction_count_def spec_reaction_counts_def)
  have b: "reaction_count (count_emojis ?S ?H [0, 1] [?M] 1) = 0"
    using count_emojis_reaction_entries [OF d m1, of ?S ?H "[?M]", THEN conjunct1]
    by (simp add: EmojiCounter_init_def reaction_count_def spec_reaction_counts_def)
  have hyp: "reaction_emoji ?R = CustomEmoji ?E
             \<and> emoji_id ?E = emoji_id (emoji (EmojiCounter_init ?E))"
    by (simp add: EmojiCounter_init_def)
  have e: "reaction_count (count_reaction ?S (EmojiCounter_init ?E) ?R) = 1"
    using count_emojis_reaction_entries [OF d m0, of ?S ?H "[]", THEN conjunct2, rule_format,
        OF hyp, THEN conjunct1]
    by (simp add: EmojiCounter_init_def reaction_count_def)
  show ?thesis using a b hyp e by simp
qed

subsection \<open>C3\<close>

text \<open>
  Claim C3. For a limit that is not negative, \<^verbatim>\<open>sort_ranking\<close> cuts the sorted list down
  to its first \<open>limit\<close> entries before the ranking loop starts: the list returned is that
  prefix, it has exactly \<open>min limit n\<close> entries (a tie across the cut adds none),
  ranking the prefix on its own gives the same store and the same list, and no object
  outside the prefix is written.
\<close>

theorem sort_ranking_truncates_first:
  assumes "0 \<le> limit"
  shows "\<exists>h' out. sort_ranking self h counters limit = Inr (h', out)
     \<and> out = take (nat limit) (sorted_py (\<lambda>c. total_count (h c))
                (SortOrder_reverse (self_order self)) counters)
     \<and> length out = min (nat limit) (length counters)
     \<and> sort_ranking self h out (int (length out)) = Inr (h', out)
     \<and> (\<forall>c. c \<notin> set out \<longrightarrow> h' c = h c)"
proof -
  let ?k = "\<lambda>c. total_count (h c)"
  let ?r = "SortOrder_reverse (self_order self)"
  let ?out = "take (nat limit) (sorted_py ?k ?r counters)"
  let ?h' = "ranked h ?out (length ?out)"
  have r: "sort_ranking self h counters limit = Inr (?h', ?out)"
    using assms by (simp add: sort_ranking_eq Let_def slice_to_nonneg)
  have "slice_to (sorted_py ?k ?r ?out) (int (length ?out)) = ?out"
    by (simp only: sorted_py_take_sorted_py slice_to_length)
  then have again: "sort_ranking self h ?out (int (length ?out)) = Inr (?h', ?out)"
    by (simp add: sort_ranking_eq Let_def)
  have len: "length ?out = min (nat limit) (length counters)"
    by (simp add: min.commute)
  have out: "\<forall>c. c \<notin> set ?out \<longrightarrow> ?h' c = h c"
    by (simp add: ranked_outside)
  show ?thesis
    using r again len out by (intro exI [of _ ?h'] exI [of _ ?out]) simp
qed

text \<open>
  The example of the specification: totals 5, 5, 5, 1 and limit 2 return the first two
  counters, both with rank 1; the other two keep the rank 7 they had before the call.
\<close>

theorem sort_ranking_truncates_first_witness:
  "(0::int) \<le> 2 \<and>
   (\<exists>h' out.
     sort_ranking \<lparr>self_order = DESCENDING, self_rank = 2, self_contains_bot = False,
                    self_user_ids = []\<rparr>
       (\<lambda>c. \<lparr>emoji = \<lparr>emoji_id = int c, emoji_name = ''e''\<rparr>, rank = 7,
              counts = (\<lambda>t. case t of MESSAGE_CONTENT \<Rightarrow> [5, 4, 0, 1] ! c
                                     | MESSAGE_REACTION \<Rightarrow> [0, 1, 5, 0] ! c)\<rparr>)
       [0, 1, 2, 3] 2 = Inr (h', out)
     \<and> out = [0, 1] \<and> length out = 2 \<and> 2 \<notin> set out \<and> 3 \<notin> set out
     \<and> map (\<lambda>c. rank (h' c)) [0, 1, 2, 3] = [1, 1, 7, 7])"
proof -
  let ?S = "\<lparr>self_order = DESCENDING, self_rank = 2, self_contains_bot = False,
                    self_user_ids = []\<rparr>"
  let ?H = "\<lambda>c::nat. \<lparr>emoji = \<lparr>emoji_id = int c, emoji_name = ''e''\<rparr>, rank = 7,
              counts = (\<lambda>t. case t of MESSAGE_CONTENT \<Rightarrow> [5, 4, 0, 1] ! c
                                     | MESSAGE_REACTION \<Rightarrow> [0, 1, 5, 0] ! c)\<rparr>"
  have lim: "(0::int) \<le> 2" by simp
  obtain h' out where r: "sort_ranking ?S ?H [0, 1, 2, 3] 2 = Inr (h', out)"
    and o: "out = take (nat 2) (sorted_py (\<lambda>c. total_count (?H c))
                (SortOrder_reverse (self_order ?S)) [0, 1, 2, 3])"
    and len: "length out = min (nat 2) (length [0::nat, 1, 2, 3])"
    and again: "sort_ranking ?S ?H out (int (length out)) = Inr (h', out)"
    and outside: "\<forall>c. c \<notin> set out \<longrightarrow> h' c = ?H c"
    using sort_ranking_truncates_first [OF lim, of ?S ?H "[0, 1, 2, 3]"] by blast
  have out: "out = [0, 1]"
    unfolding o by (simp add: sorted_py_def SortOrder_reverse_def total_count_def)
  have "rank (h' c) = int (first_pos (\<lambda>x. total_count (?H x)) out c) + 1"
    if "c \<in> set out" for c
    using again that by (rule sort_ranking_rank_of)
  then have r01: "rank (h' 0) = 1" "rank (h' 1) = 1"
    unfolding out by (simp_all add: first_pos_def total_count_def)
  have r23: "rank (h' 2) = 7" "rank (h' 3) = 7"
    using outside out by simp_all
  show ?thesis
    using r out r01 r23 by simp
qed

subsection \<open>C4\<close>

text \<open>
  Claim C4. Without truncation \<^verbatim>\<open>sort_ranking\<close> returns a permutation of the counters
  that is sorted by total, downwards when the order is \<^verbatim>\<open>DESCENDING\<close> and upwards
  otherwise, and in which the counters of any one total stand in the order they had in
  the input; with a limit that is not negative it returns the first \<open>limit\<close> entries of
  that list.
\<close>

theorem sort_ranking_stable_order:
  "\<exists>h' full. sort_ranking self h counters (int (length counters)) = Inr (h', full)
     \<and> mset full = mset counters
     \<and> (self_order self = DESCENDING \<longrightarrow> sorted (rev (map (\<lambda>c. total_count (h c)) full)))
     \<and> (self_order self \<noteq> DESCENDING \<longrightarrow> sorted (map (\<lambda>c. total_count (h c)) full))
     \<and> (\<forall>v. filter (\<lambda>c. total_count (h c) = v) full
              = filter (\<lambda>c. total_count (h c) = v) counters)
     \<and> (\<forall>limit. 0 \<le> limit \<longrightarrow>
           (\<exists>h''. sort_ranking self h counters limit = Inr (h'', take (nat limit) full)))"
proof -
  let ?k = "\<lambda>c. total_count (h c)"
  let ?r = "SortOrder_reverse (self_order self)"
  let ?full = "sorted_py ?k ?r counters"
  let ?h' = "ranked h ?full (length ?full)"
  have r: "sort_ranking self h counters (int (length counters)) = Inr (?h', ?full)"
    by (simp add: sort_ranking_eq Let_def slice_to_nonneg)
  have d: "self_order self = DESCENDING \<longrightarrow> sorted (rev (map ?k ?full))"
    using sorted_py_descending [of ?k counters] by (simp add: SortOrder_reverse_def)
  have a: "self_order self \<noteq> DESCENDING \<longrightarrow> sorted (map ?k ?full)"
    using sorted_py_ascending [of ?k counters] by (simp add: SortOrder_reverse_def)
  have s: "\<forall>v. filter (\<lambda>c. ?k c = v) ?full = filter (\<lambda>c. ?k c = v) counters"
    by (simp add: sorted_py_stable)
  have t: "\<forall>limit. 0 \<le> limit \<longrightarrow>
           (\<exists>h''. sort_ranking self h counters limit = Inr (h'', take (nat limit) ?full))"
    by (simp add: sort_ranking_eq Let_def slice_to_nonneg)
  have m: "mset ?full = mset counters" by simp
  show ?thesis
    using r m d a s t by (intro exI [of _ ?h'] exI [of _ ?full]) simp
qed

text \<open>
  The example of the specification: ascending order on totals 5, 5, 3, 1 in catalog order
  A, B, C, D returns D, C, A, B with ranks 1, 2, 3, 3.
\<close>

theorem sort_ranking_stable_order_witness:
  "\<exists>h' full.
     sort_ranking \<lparr>self_order = ASCENDING, self_rank = 4, self_contains_bot = False,
                    self_user_ids = []\<rparr>
       (\<lambda>c. \<lparr>emoji = \<lparr>emoji_id = int c, emoji_name = ''e''\<rparr>, rank = 0,
              counts = (\<lambda>t. case t of MESSAGE_CONTENT \<Rightarrow> [1, 5, 3, 0] ! c
                                     | MESSAGE_REACTION \<Rightarrow> [4, 0, 0, 1] ! c)\<rparr>)
       [0, 1, 2, 3] 4 = Inr (h', full)
     \<and> ASCENDING \<noteq> DESCENDING \<and> (0::int) \<le> 4
     \<and> full = [3, 2, 0, 1]
     \<and> map (\<lambda>c. rank (h' c)) full = [1, 2, 3, 3]"
proof -
  let ?S = "\<lparr>self_order = ASCENDING, self_rank = 4, self_contains_bot = False,
                    self_user_ids = []\<rparr>"
  let ?H = "\<lambda>c::nat. \<lparr>emoji = \<lparr>emoji_id = int c, emoji_name = ''e''\<rparr>, rank = 0,
              counts = (\<lambda>t. case t of MESSAGE_CONTENT \<Rightarrow> [1, 5, 3, 0] ! c
                                     | MESSAGE_REACTION \<Rightarrow> [4, 0, 0, 1] ! c)\<rparr>"
  let ?k = "\<lambda>c. total_count (?H c)"
  obtain h' full
    where r: "sort_ranking ?S ?H [0, 1, 2, 3] (int (length [0::nat, 1, 2, 3])) = Inr (h', full)"
    and m: "mset full = mset [0, 1, 2, 3]"
    and a: "self_order ?S \<noteq> DESCENDING \<longrightarrow> sorted (map ?k full)"
    and s: "\<forall>v. filter (\<lambda>c. ?k c = v) full = filter (\<lambda>c. ?k c = v) [0, 1, 2, 3]"
    using sort_ranking_stable_order [of ?S ?H "[0, 1, 2, 3]"] by blast
  have r4: "sort_ranking ?S ?H [0, 1, 2, 3] 4 = Inr (h', full)"
    using r by simp
  then have full: "full = [3, 2, 0, 1]"
    by (auto simp: sort_ranking_eq sorted_py_def SortOrder_reverse_def total_count_def
        slice_to_def Let_def)
  have "rank (h' c) = int (first_pos (\<lambda>x. total_count (?H x)) full c) + 1"
    if "c \<in> set full" for c
    using r4 that by (rule sort_ranking_rank_of)
  then have "map (\<lambda>c. rank (h' c)) [3, 2, 0, 1] = [1, 2, 3, 3]"
    unfolding full by (simp add: first_pos_def total_count_def)
  then show ?thesis
    using r4 full by simp
qed

subsection \<open>C5\<close>

text \<open>
  Claim C5. When bot activity is excluded, a message written by a bot adds nothing to the
  text count of any counter, whatever its text holds: a batch of such messages leaves every
  text count as it was, and any batch counts as the batch without its bot-written
  messages.
\<close>

theorem bot_author_adds_no_text:
  assumes "\<not> self_contains_bot self"
  shows "(bot (author m) \<longrightarrow>
            content_count (count_emojis self h counters [m] c) = content_count (h c))
         \<and> ((\<forall>m \<in> set ms. bot (author m)) \<longrightarrow>
            content_count (count_emojis self h counters ms c) = content_count (h c))
         \<and> content_count (count_emojis self h counters ms c)
           = content_count (count_emojis self h counters (filter (\<lambda>m. \<not> bot (author m)) ms) c)"
proof -
  have no: "bot (author m') \<Longrightarrow> \<not> spec_text_match self e m'" for e m'
    using assms by (simp add: spec_text_match_def)
  have f: "filter (spec_text_match self e) (filter (\<lambda>m. \<not> bot (author m)) ms)
           = filter (spec_text_match self e) ms" for e
    using no by (induction ms) auto
  have all: "(\<forall>m \<in> set ms. bot (author m)) \<longrightarrow> filter (spec_text_match self e) ms = []" for e
    using no by (auto simp: filter_empty_conv)
  show ?thesis
    using no [of m] all f by (simp add: content_count_count_emojis)
qed

text \<open>
  A bot's message whose text holds the names of both emojis leaves both text counts at 0.
\<close>

theorem bot_author_adds_no_text_witness:
  "\<not> self_contains_bot \<lparr>self_order = DESCENDING, self_rank = 10, self_contains_bot = False,
                          self_user_ids = []\<rparr>
   \<and> bot (author \<lparr>author = \<lparr>user_id = 5, bot = True\<rparr>, content = ''ok no'', reactions = []\<rparr>)
   \<and> bot (author \<lparr>author = \<lparr>user_id = 6, bot = True\<rparr>, content = ''no'', reactions = []\<rparr>)
   \<and> str_in ''ok'' ''ok no'' \<and> str_in ''no'' ''ok no''
   \<and> map (\<lambda>c. content_count
         (count_emojis
            \<lparr>self_order = DESCENDING, self_rank = 10, self_contains_bot = False,
               self_user_ids = []\<rparr>
            (\<lambda>c. EmojiCounter_init \<lparr>emoji_id = int c, emoji_name = [''ok'', ''no''] ! c\<rparr>)
            [0, 1]
            [\<lparr>author = \<lparr>user_id = 5, bot = True\<rparr>, content = ''ok no'', reactions = []\<rparr>]
            c)) [0, 1] = [0, 0]
   \<and> map (\<lambda>c. content_count
         (count_emojis
            \<lparr>self_order = DESCENDING, self_rank = 10, self_contains_bot = False,
               self_user_ids = []\<rparr>
            (\<lambda>c. EmojiCounter_init \<lparr>emoji_id = int c, emoji_name = [''ok'', ''no''] ! c\<rparr>)
            [0, 1]
            [\<lparr>author = \<lparr>user_id = 5, bot = True\<rparr>, content = ''ok no'', reactions = []\<rparr>,
             \<lparr>author = \<lparr>user_id = 6, bot = True\<rparr>, content = ''no'', reactions = []\<rparr>]
            c)) [0, 1] = [0, 0]"
proof -
  let ?S = "\<lparr>self_order = DESCENDING, self_rank = 10, self_contains_bot = False,
               self_user_ids = []\<rparr>"
  let ?H = "\<lambda>c::nat. EmojiCounter_init \<lparr>emoji_id = int c, emoji_name = [''ok'', ''no''] ! c\<rparr>"
  let ?M = "\<lparr>author = \<lparr>user_id = 5, bot = True\<rparr>, content = ''ok no'', reactions = []\<rparr>"
  let ?N = "\<lparr>author = \<lparr>user_id = 6, bot = True\<rparr>, content = ''no'', reactions = []\<rparr>"
  have nb: "\<not> self_contains_bot ?S" by simp
  have b: "bot (author ?M)" by simp
  have bs: "\<forall>m \<in> set [?M, ?N]. bot (author m)" by simp
  have "content_count (count_emojis ?S ?H [0, 1] [?M] c) = content_count (?H c)" for c
    using bot_author_adds_no_text [OF nb, of ?M ?H "[0, 1]" c "[]"] b by blast
  then have one: "map (\<lambda>c. content_count (count_emojis ?S ?H [0, 1] [?M] c)) [0, 1] = [0, 0]"
    by (simp add: EmojiCounter_init_def content_count_def)
  have "content_count (count_emojis ?S ?H [0, 1] [?M, ?N] c) = content_count (?H c)" for c
    using bot_author_adds_no_text [OF nb, of ?M ?H "[0, 1]" c "[?M, ?N]"] bs by blast
  then have two: "map (\<lambda>c. content_count (count_emojis ?S ?H [0, 1] [?M, ?N] c)) [0, 1] = [0, 0]"
    by (simp add: EmojiCounter_init_def content_count_def)
  show ?thesis using one two by simp
qed

subsection \<open>C6\<close>

text \<open>
  Claim C6. For a counter that occurs once in the list of counters, one message adds
  exactly 1 to its text count if the emoji's name is a substring of the message text, the
  author passes the author filter (when there is one) and the bot guard passes, and adds
  nothing otherwise, however often the name occurs in the text; a batch of messages adds
  the number of its messages that satisfy the specification's condition.
\<close>

theorem count_emojis_text_once:
  assumes "distinct counters" and "c \<in> set counters"
  shows "content_count (count_emojis self h counters [m] c) =
           content_count (h c)
           + (if sublist (emoji_name (emoji (h c))) (content m)
                 \<and> (self_user_ids self = [] \<or> user_id (author m) \<in> set (self_user_ids self))
                 \<and> (self_contains_bot self \<or> \<not> bot (author m))
              then 1 else 0)
         \<and> content_count (count_emojis self h counters ms c) =
           content_count (h c) + int (length (filter (spec_text_match self (emoji (h c))) ms))"
proof -
  have one: "count_list counters c = 1"
    using assms by (rule count_list_distinct)
  show ?thesis
    by (simp add: content_count_count_emojis one spec_text_match_def)
qed

text \<open>
  With the author filter [7] and a message by user 7 whose text holds the name twice, the
  counter of that emoji goes from 0 to 1 and the other counter stays at 0.
\<close>

theorem count_emojis_text_once_witness:
  "distinct [0::nat, 1] \<and> 0 \<in> set [0::nat, 1] \<and> 1 \<in> set [0::nat, 1]
   \<and> map (\<lambda>c. content_count
         (count_emojis
            \<lparr>self_order = DESCENDING, self_rank = 10, self_contains_bot = False,
               self_user_ids = [7]\<rparr>
            (\<lambda>c. EmojiCounter_init \<lparr>emoji_id = int c, emoji_name = [''ok'', ''no''] ! c\<rparr>)
            [0, 1]
            [\<lparr>author = \<lparr>user_id = 7, bot = False\<rparr>, content = ''ok ok'', reactions = []\<rparr>]
            c)) [0, 1] = [1, 0]"
proof -
  let ?S = "\<lparr>self_order = DESCENDING, self_rank = 10, self_contains_bot = False,
               self_user_ids = [7]\<rparr>"
  let ?H = "\<lambda>c::nat. EmojiCounter_init \<lparr>emoji_id = int c, emoji_name = [''ok'', ''no''] ! c\<rparr>"
  let ?M = "\<lparr>author = \<lparr>user_id = 7, bot = False\<rparr>, content = ''ok ok'', reactions = []\<rparr>"
  have d: "distinct [0::nat, 1]" and m0: "0 \<in> set [0::nat, 1]" and m1: "1 \<in> set [0::nat, 1]"
    by simp_all
  have a: "content_count (count_emojis ?S ?H [0, 1] [?M] 0) = 1"
    using count_emojis_text_once [OF d m0, of ?S ?H ?M "[]"]
    by (simp add: EmojiCounter_init_def content_count_def flip: str_in_sublist)
  have b: "content_count (count_emojis ?S ?H [0, 1] [?M] 1) = 0"
    using count_emojis_text_once [OF d m1, of ?S ?H ?M "[]"]
    by (simp add: EmojiCounter_init_def content_count_def flip: str_in_sublist)
  show ?thesis using a b by simp
qed

subsection \<open>C7\<close>

text \<open>
  Claim C7. Two sequences of channel histories that hold the same messages, however they
  are cut into batches and in whatever order, leave the same store: every text count and
  every reaction count is the same, and the same as after one pass over all the messages.
\<close>

theorem counting_batches_commute:
  assumes "mset (all_messages chs) = mset (all_messages chs')"
  shows "count_channels self h counters chs = count_channels self h counters chs'
         \<and> count_channels self h counters chs = count_emojis self h counters (all_messages chs)
         \<and> (\<forall>c. content_count (count_channels self h counters chs c)
                  = content_count (count_channels self h counters chs' c)
                \<and> reaction_count (count_channels self h counters chs c)
                  = reaction_count (count_channels self h counters chs' c))"
proof -
  have "count_emojis self h counters (all_messages chs)
        = count_emojis self h counters (all_messages chs')"
    using assms by (rule count_emojis_mset)
  then show ?thesis by (simp add: count_channels_all_messages)
qed

text \<open>
  The example of the specification: the batches [A, B], [C] against [C], [A, B] and an
  empty batch.
\<close>

theorem counting_batches_commute_witness:
  "mset (all_messages
           [Messages [\<lparr>author = \<lparr>user_id = 1, bot = False\<rparr>, content = ''ok'', reactions = []\<rparr>,
                      \<lparr>author = \<lparr>user_id = 2, bot = False\<rparr>, content = ''no'', reactions = []\<rparr>],
            Messages [\<lparr>author = \<lparr>user_id = 3, bot = True\<rparr>, content = ''ok no'',
                        reactions = []\<rparr>]])
   = mset (all_messages
           [Messages [\<lparr>author = \<lparr>user_id = 3, bot = True\<rparr>, content = ''ok no'',
                        reactions = []\<rparr>],
            Messages [\<lparr>author = \<lparr>user_id = 1, bot = False\<rparr>, content = ''ok'', reactions = []\<rparr>,
                      \<lparr>author = \<lparr>user_id = 2, bot = False\<rparr>, content = ''no'', reactions = []\<rparr>],
            Messages []])
   \<and> count_channels
         \<lparr>self_order = DESCENDING, self_rank = 10, self_contains_bot = True, self_user_ids = []\<rparr>
         (\<lambda>c. EmojiCounter_init \<lparr>emoji_id = int c, emoji_name = [''ok'', ''no''] ! c\<rparr>)
         [0, 1]
         [Messages [\<lparr>author = \<lparr>user_id = 1, bot = False\<rparr>, content = ''ok'', reactions = []\<rparr>,
                    \<lparr>author = \<lparr>user_id = 2, bot = False\<rparr>, content = ''no'', reactions = []\<rparr>],
          Messages [\<lparr>author = \<lparr>user_id = 3, bot = True\<rparr>, content = ''ok no'',
                      reactions = []\<rparr>]]
     = count_channels
         \<lparr>self_order = DESCENDING, self_rank = 10, self_contains_bot = True, self_user_ids = []\<rparr>
         (\<lambda>c. EmojiCounter_init \<lparr>emoji_id = int c, emoji_name = [''ok'', ''no''] ! c\<rparr>)
         [0, 1]
         [Messages [\<lparr>author = \<lparr>user_id = 3, bot = True\<rparr>, content = ''ok no'',
                      reactions = []\<rparr>],
          Messages [\<lparr>author = \<lparr>user_id = 1, bot = False\<rparr>, content = ''ok'', reactions = []\<rparr>,
                    \<lparr>author = \<lparr>user_id = 2, bot = False\<rparr>, content = ''no'', reactions = []\<rparr>],
          Messages []]"
proof -
  let ?S = "\<lparr>self_order = DESCENDING, self_rank = 10, self_contains_bot = True,
              self_user_ids = []\<rparr>"
  let ?H = "\<lambda>c::nat. EmojiCounter_init \<lparr>emoji_id = int c, emoji_name = [''ok'', ''no''] ! c\<rparr>"
  let ?A = "\<lparr>author = \<lparr>user_id = 1, bot = False\<rparr>, content = ''ok'', reactions = []\<rparr>"
  let ?B = "\<lparr>author = \<lparr>user_id = 2, bot = False\<rparr>, content = ''no'', reactions = []\<rparr>"
  let ?C = "\<lparr>author = \<lparr>user_id = 3, bot = True\<rparr>, content = ''ok no'', reactions = []\<rparr>"
  have m: "mset (all_messages [Messages [?A, ?B], Messages [?C]])
           = mset (all_messages [Messages [?C], Messages [?A, ?B], Messages []])"
    by (simp add: all_messages_def)
  show ?thesis
    using m counting_batches_commute [OF m, of ?S ?H "[0, 1]"] by blast
qed

subsection \<open>C8\<close>

text \<open>
  Claim C8. After any sequence of counting passes the total of every counter is its text
  count plus its reaction count, neither tally is smaller than before, and both are at
  least 0 for a counter that started as \<^verbatim>\<open>_EmojiCounter(emoji)\<close>; one call of
  \<^verbatim>\<open>increment\<close> lowers neither tally and raises the total by 1.
\<close>

theorem totals_after_counting:
  "total_count (count_channels self h counters chs c)
     = content_count (count_channels self h counters chs c)
       + reaction_count (count_channels self h counters chs c)
   \<and> content_count (h c) \<le> content_count (count_channels self h counters chs c)
   \<and> reaction_count (h c) \<le> reaction_count (count_channels self h counters chs c)
   \<and> (h c = EmojiCounter_init e \<longrightarrow>
         0 \<le> content_count (count_channels self h counters chs c)
         \<and> 0 \<le> reaction_count (count_channels self h counters chs c))
   \<and> content_count x \<le> content_count (increment t x)
   \<and> reaction_count x \<le> reaction_count (increment t x)
   \<and> total_count (increment t x) = total_count x + 1"
proof -
  let ?h' = "count_channels self h counters chs"
  have c: "content_count (h c) \<le> content_count (?h' c)"
    by (simp add: count_channels_all_messages content_count_count_emojis)
  have r: "reaction_count (h c) \<le> reaction_count (?h' c)"
    by (simp add: count_channels_all_messages reaction_count_count_emojis)
  have z: "h c = EmojiCounter_init e \<longrightarrow> content_count (h c) = 0 \<and> reaction_count (h c) = 0"
    by (simp add: EmojiCounter_init_def content_count_def reaction_count_def)
  have i: "content_count x \<le> content_count (increment t x)
           \<and> reaction_count x \<le> reaction_count (increment t x)
           \<and> total_count (increment t x) = total_count x + 1"
    by (cases t) (simp_all add: increment_def content_count_def reaction_count_def total_count_def)
  show ?thesis
    using c r z i total_count_parts [of "?h' c"] by auto
qed

text \<open>
  A fresh counter after one message that holds its emoji's name and one channel that could
  not be read: text count 1, total 1.
\<close>

theorem totals_after_counting_witness:
  "(\<lambda>c. EmojiCounter_init \<lparr>emoji_id = int c, emoji_name = [''ok'', ''no''] ! c\<rparr>) (0::nat)
     = EmojiCounter_init \<lparr>emoji_id = 0, emoji_name = ''ok''\<rparr>
   \<and> 0 \<le> content_count
         (count_channels
            \<lparr>self_order = DESCENDING, self_rank = 10, self_contains_bot = False,
               self_user_ids = []\<rparr>
            (\<lambda>c. EmojiCounter_init \<lparr>emoji_id = int c, emoji_name = [''ok'', ''no''] ! c\<rparr>)
            [0, 1]
            [Messages [\<lparr>author = \<lparr>user_id = 1, bot = False\<rparr>, content = ''ok'',
                         reactions = []\<rparr>], Forbidden]
            0)
   \<and> total_count
         (count_channels
            \<lparr>self_order = DESCENDING, self_rank = 10, self_contains_bot = False,
               self_user_ids = []\<rparr>
            (\<lambda>c. EmojiCounter_init \<lparr>emoji_id = int c, emoji_name = [''ok'', ''no''] ! c\<rparr>)
            [0, 1]
            [Messages [\<lparr>author = \<lparr>user_id = 1, bot = False\<rparr>, content = ''ok'',
                         reactions = []\<rparr>], Forbidden]
            0) = 1"
proof -
  let ?S = "\<lparr>self_order = DESCENDING, self_rank = 10, self_contains_bot = False,
               self_user_ids = []\<rparr>"
  let ?H = "\<lambda>c::nat. EmojiCounter_init \<lparr>emoji_id = int c, emoji_name = [''ok'', ''no''] ! c\<rparr>"
  let ?chs = "[Messages [\<lparr>author = \<lparr>user_id = 1, bot = False\<rparr>, content = ''ok'',
                         reactions = []\<rparr>], Forbidden]"
  let ?E = "\<lparr>emoji_id = 0, emoji_name = ''ok''\<rparr>"
  have i: "?H 0 = EmojiCounter_init ?E" by simp
  have t: "total_count (count_channels ?S ?H [0, 1] ?chs 0)
             = content_count (count_channels ?S ?H [0, 1] ?chs 0)
               + reaction_count (count_channels ?S ?H [0, 1] ?chs 0)"
    and nn: "0 \<le> content_count (count_channels ?S ?H [0, 1] ?chs 0)"
    using totals_after_counting [of ?S ?H "[0, 1]" ?chs 0 ?E] i by blast+
  have c: "content_count (count_channels ?S ?H [0, 1] ?chs 0) = 1"
    by (simp add: count_emojis_def count_message_def count_counter_def increment_def
        content_count_def EmojiCounter_init_def)
  have r: "reaction_count (count_channels ?S ?H [0, 1] ?chs 0) = 0"
    by (simp add: count_emojis_def count_message_def count_counter_def increment_def
        reaction_count_def EmojiCounter_init_def)
  show ?thesis using i t nn c r by simp
qed

subsection \<open>C9\<close>

text \<open>
  Claim C9. Ranking an empty list of counters returns the empty list without raising and
  leaves the store alone, for every order and every limit; so does the path of
  \<^verbatim>\<open>_execute\<close> for a guild without emojis, whatever the channels hold.
\<close>

theorem sort_ranking_empty_catalog:
  "sort_ranking self h [] limit = Inr (h, [])
   \<and> sort_ranking self (count_channels self h [] chs) [] (execute_rank self 0) = Inr (h, [])"
proof -
  have e: "sort_ranking self h' [] n = Inr (h', [])" for h' n
    by (simp add: sort_ranking_eq sorted_py_def slice_to_def)
  have "count_emojis self h' [] ms = h'" for h' ms
    by (induction ms) (simp_all add: count_emojis_def count_message_def)
  then have "count_channels self h [] chs = h"
    by (induction self h "[] :: ref list" chs rule: count_channels.induct) simp_all
  then show ?thesis using e by simp
qed

subsection \<open>C10\<close>

text \<open>
  Claim C10. \<^verbatim>\<open>sort_ranking\<close> changes no field of any counter but \<^verbatim>\<open>rank\<close>: the emoji
  and the three counts of every object are as before. An object that is not in the list
  returned is not written at all. For a limit that is not negative the list returned is
  the first \<open>min limit n\<close> entries of the sorted order, and when the counters are
  distinct objects every counter behind the cut keeps the rank it had.
\<close>

theorem sort_ranking_frame:
  "\<exists>h' out. sort_ranking self h counters limit = Inr (h', out)
     \<and> (\<forall>c. h' c = (h c)\<lparr>rank := rank (h' c)\<rparr>)
     \<and> (\<forall>c. emoji (h' c) = emoji (h c) \<and> content_count (h' c) = content_count (h c)
             \<and> reaction_count (h' c) = reaction_count (h c)
             \<and> total_count (h' c) = total_count (h c))
     \<and> (\<forall>c. c \<notin> set out \<longrightarrow> h' c = h c)
     \<and> (0 \<le> limit \<longrightarrow>
           out = take (nat limit) (sorted_py (\<lambda>c. total_count (h c))
                    (SortOrder_reverse (self_order self)) counters)
           \<and> length out = min (nat limit) (length counters))
     \<and> (0 \<le> limit \<and> distinct counters \<longrightarrow>
           (\<forall>c \<in> set (drop (nat limit) (sorted_py (\<lambda>c. total_count (h c))
                    (SortOrder_reverse (self_order self)) counters)).
              rank (h' c) = rank (h c)))"
proof -
  let ?k = "\<lambda>c. total_count (h c)"
  let ?s = "sorted_py ?k (SortOrder_reverse (self_order self)) counters"
  let ?out = "slice_to ?s limit"
  let ?h' = "ranked h ?out (length ?out)"
  have r: "sort_ranking self h counters limit = Inr (?h', ?out)"
    by (simp add: sort_ranking_eq Let_def)
  have only: "\<forall>c. ?h' c = (h c)\<lparr>rank := rank (?h' c)\<rparr>"
    using ranked_only_rank by blast
  have same: "\<forall>c. emoji (?h' c) = emoji (h c) \<and> content_count (?h' c) = content_count (h c)
             \<and> reaction_count (?h' c) = reaction_count (h c)
             \<and> total_count (?h' c) = total_count (h c)"
    by (simp add: content_count_def reaction_count_def)
  have outside: "\<forall>c. c \<notin> set ?out \<longrightarrow> ?h' c = h c"
    by (simp add: ranked_outside)
  have shape: "0 \<le> limit \<longrightarrow> ?out = take (nat limit) ?s
                 \<and> length ?out = min (nat limit) (length counters)"
    by (simp add: slice_to_nonneg min.commute)
  have cut: "0 \<le> limit \<and> distinct counters \<longrightarrow>
               (\<forall>c \<in> set (drop (nat limit) ?s). rank (?h' c) = rank (h c))"
  proof (intro impI ballI)
    fix c
    assume a: "0 \<le> limit \<and> distinct counters" and c: "c \<in> set (drop (nat limit) ?s)"
    have "distinct (take (nat limit) ?s @ drop (nat limit) ?s)" using a by simp
    then have "set (take (nat limit) ?s) \<inter> set (drop (nat limit) ?s) = {}"
      by (simp only: distinct_append)
    then have "c \<notin> set ?out" using a c by (auto simp: slice_to_nonneg)
    then show "rank (?h' c) = rank (h c)" by (simp add: ranked_outside)
  qed
  show ?thesis
    using r only same outside shape cut
    by (intro exI [of _ ?h'] exI [of _ ?out]) (simp only: simp_thms)
qed

text \<open>
  Three counters with totals 2, 9, 4 and rank 9, ascending, limit 2: the counters with
  totals 2 and 4 are returned, the third keeps rank 9, and no count or emoji changes.
\<close>

theorem sort_ranking_frame_witness:
  "\<exists>h' out.
     sort_ranking \<lparr>self_order = ASCENDING, self_rank = 2, self_contains_bot = True,
                    self_user_ids = [11]\<rparr>
       (\<lambda>c. \<lparr>emoji = \<lparr>emoji_id = int c + 100, emoji_name = ''party''\<rparr>, rank = 9,
              counts = (\<lambda>t. case t of MESSAGE_CONTENT \<Rightarrow> [2, 6, 1] ! c
                                     | MESSAGE_REACTION \<Rightarrow> [0, 3, 3] ! c)\<rparr>)
       [0, 1, 2] 2 = Inr (h', out)
     \<and> (0::int) \<le> 2 \<and> distinct [0::nat, 1, 2]
     \<and> out = [0, 2] \<and> 1 \<notin> set out
     \<and> drop (nat 2)
          (sorted_py
             (\<lambda>c. total_count
                     \<lparr>emoji = \<lparr>emoji_id = int c + 100, emoji_name = ''party''\<rparr>, rank = 9,
                        counts = (\<lambda>t. case t of MESSAGE_CONTENT \<Rightarrow> [2, 6, 1] ! c
                                     | MESSAGE_REACTION \<Rightarrow> [0, 3, 3] ! c)\<rparr>)
             False [0, 1, 2]) = [1]
     \<and> h' 1 = \<lparr>emoji = \<lparr>emoji_id = int 1 + 100, emoji_name = ''party''\<rparr>, rank = 9,
                counts = (\<lambda>t. case t of MESSAGE_CONTENT \<Rightarrow> [2, 6, 1] ! 1
                                     | MESSAGE_REACTION \<Rightarrow> [0, 3, 3] ! 1)\<rparr>
     \<and> rank (h' 1) = 9
     \<and> map (\<lambda>c. content_count (h' c)) [0, 1, 2] = [2, 6, 1]
     \<and> map (\<lambda>c. reaction_count (h' c)) [0, 1, 2] = [0, 3, 3]
     \<and> map (\<lambda>c. emoji_id (emoji (h' c))) [0, 1, 2] = [100, 101, 102]"
proof -
  let ?S = "\<lparr>self_order = ASCENDING, self_rank = 2, self_contains_bot = True,
                    self_user_ids = [11]\<rparr>"
  let ?H = "\<lambda>c::nat. \<lparr>emoji = \<lparr>emoji_id = int c + 100, emoji_name = ''party''\<rparr>, rank = 9,
              counts = (\<lambda>t. case t of MESSAGE_CONTENT \<Rightarrow> [2, 6, 1] ! c
                                     | MESSAGE_REACTION \<Rightarrow> [0, 3, 3] ! c)\<rparr>"
  let ?s = "sorted_py (\<lambda>c. total_count (?H c)) (SortOrder_reverse (self_order ?S)) [0, 1, 2]"
  obtain h' out where r: "sort_ranking ?S ?H [0, 1, 2] 2 = Inr (h', out)"
    and same: "\<forall>c. emoji (h' c) = emoji (?H c) \<and> content_count (h' c) = content_count (?H c)
             \<and> reaction_count (h' c) = reaction_count (?H c)
             \<and> total_count (h' c) = total_count (?H c)"
    and outside: "\<forall>c. c \<notin> set out \<longrightarrow> h' c = ?H c"
    and shape: "0 \<le> (2::int) \<longrightarrow> out = take (nat 2) ?s
                  \<and> length out = min (nat 2) (length [0::nat, 1, 2])"
    and cut: "0 \<le> (2::int) \<and> distinct [0::nat, 1, 2] \<longrightarrow>
                (\<forall>c \<in> set (drop (nat 2) ?s). rank (h' c) = rank (?H c))"
    using sort_ranking_frame [of ?S ?H "[0, 1, 2]" 2] by blast
  have out: "out = [0, 2]"
    using shape by (simp add: sorted_py_def SortOrder_reverse_def total_count_def)
  have dr: "drop (nat 2) (sorted_py (\<lambda>c. total_count (?H c)) False [0, 1, 2]) = [1]"
    by (simp add: sorted_py_def total_count_def)
  have "(1::nat) \<notin> set out" using out by simp
  then have h1: "h' 1 = ?H 1" using outside by blast
  have "rank (h' 1) = rank (?H 1)"
    using cut dr by (simp add: SortOrder_reverse_def)
  then have r1: "rank (h' 1) = 9" by simp
  have c: "map (\<lambda>c. content_count (h' c)) [0, 1, 2] = [2, 6, 1]"
    using same by (simp add: content_count_def)
  have re: "map (\<lambda>c. reaction_count (h' c)) [0, 1, 2] = [0, 3, 3]"
    using same by (simp add: reaction_count_def)
  have e: "map (\<lambda>c. emoji_id (emoji (h' c))) [0, 1, 2] = [100, 101, 102]"
    using same by simp
  show ?thesis
    using r out dr h1 r1 c re e by (intro exI [of _ h'] exI [of _ out]) simp
qed

end
